theory Spec2Isabelle
  imports Complex_Main
begin

section \<open>The taste subsystem of get-me-a-date\<close>

text \<open>
  A shallow embedding of the module that exports the \<open>Taste\<close> singleton: the helpers
  \<open>deleteFaces\<close>, \<open>indexFacesFromImages\<close>, \<open>checkPhotoOut\<close>, \<open>savePhoto\<close>,
  \<open>compareFacesFromImage\<close> and the methods \<open>syncS3BucketAndRekognitionCollection\<close>,
  \<open>mentalSnapshot\<close>, \<open>checkPhotosOut\<close> and \<open>acquireTaste\<close>.

  JavaScript promises are modelled as values of a sum type (\<open>Inl\<close> a rejection, \<open>Inr\<close> the
  resolved value) together with the state reached when the promise settles. The bounded
  concurrency of \<open>Promise.map\<close> and the parallel start of \<open>Promise.props\<close> are modelled by
  the sequential schedule that runs the operations in the order in which the source starts
  them. Numbers are exact reals: the rounding of IEEE doubles is not modelled.
\<close>

subsection \<open>JavaScript values and library functions\<close>

text \<open>A number-valued JavaScript slot that may also hold \<open>undefined\<close> or \<open>null\<close>.\<close>

datatype jsnum = Undefined | Null | Num real

text \<open>The numeric coercion applied by \<open>+\<close> and \<open>/\<close> to the values lodash lets through.\<close>

fun to_number :: "jsnum \<Rightarrow> real" where
  "to_number (Num x) = x"
| "to_number Null = 0"
| "to_number Undefined = 0"

text \<open>
  \<open>_.round(x, 2)\<close>: shift two decimal places, \<open>Math.round\<close> (half rounds up), shift back.
  \<open>None\<close> stands for \<open>NaN\<close>, which is what \<open>_.round\<close> gives for \<open>undefined\<close> and \<open>NaN\<close>.
\<close>

definition round2 :: "real \<Rightarrow> real" where
  "round2 x = of_int \<lfloor>x * 100 + 1 / 2\<rfloor> / 100"

definition js_round2 :: "real option \<Rightarrow> real option" where
  "js_round2 v = map_option round2 v"

text \<open>\<open>v || 0\<close> for a number or \<open>NaN\<close>: both \<open>NaN\<close> and \<open>0\<close> are falsy.\<close>

definition or_zero :: "real option \<Rightarrow> real" where
  "or_zero v = (case v of None \<Rightarrow> 0 | Some x \<Rightarrow> if x = 0 then 0 else x)"

text \<open>
  \<open>_.max\<close> and \<open>_.min\<close> skip \<open>null\<close> and \<open>undefined\<close> and give \<open>undefined\<close> when nothing
  is left; the first extremal element wins.
\<close>

fun js_extremum :: "(real \<Rightarrow> real \<Rightarrow> bool) \<Rightarrow> jsnum list \<Rightarrow> jsnum \<Rightarrow> jsnum" where
  "js_extremum gt [] computed = computed"
| "js_extremum gt (Num x # vs) computed =
     (case computed of
        Num c \<Rightarrow> js_extremum gt vs (if gt x c then Num x else Num c)
      | _ \<Rightarrow> js_extremum gt vs (Num x))"
| "js_extremum gt (v # vs) computed = js_extremum gt vs computed"

definition js_max :: "jsnum list \<Rightarrow> jsnum" where
  "js_max vs = js_extremum (\<lambda>x c. x > c) vs Undefined"

definition js_min :: "jsnum list \<Rightarrow> jsnum" where
  "js_min vs = js_extremum (\<lambda>x c. x < c) vs Undefined"

text \<open>\<open>_.without(array, 0, undefined)\<close>.\<close>

definition without_zero_undefined :: "jsnum list \<Rightarrow> jsnum list" where
  "without_zero_undefined vs = filter (\<lambda>v. v \<noteq> Num 0 \<and> v \<noteq> Undefined) vs"

text \<open>
  \<open>_.mean\<close>: \<open>NaN\<close> for the empty array, else lodash's \<open>baseSum\<close> (which skips
  \<open>undefined\<close> and is \<open>undefined\<close> when every entry is) divided by the array length.
\<close>

definition base_sum :: "jsnum list \<Rightarrow> real option" where
  "base_sum vs =
     (case filter (\<lambda>v. v \<noteq> Undefined) vs of
        [] \<Rightarrow> None
      | ws \<Rightarrow> Some (sum_list (map to_number ws)))"

definition js_mean :: "jsnum list \<Rightarrow> real option" where
  "js_mean vs =
     (if vs = [] then None
      else map_option (\<lambda>s. s / real (length vs)) (base_sum vs))"

text \<open>\<open>_.includes(error.code, message)\<close>: substring search; \<open>false\<close> when the code is undefined.\<close>

fun starts_with :: "string \<Rightarrow> string \<Rightarrow> bool" where
  "starts_with s [] = True"
| "starts_with [] (c # cs) = False"
| "starts_with (d # ds) (c # cs) = (d = c \<and> starts_with ds cs)"

fun index_of :: "string \<Rightarrow> string \<Rightarrow> bool" where
  "index_of [] m = (m = [])"
| "index_of (c # cs) m = (starts_with (c # cs) m \<or> index_of cs m)"

definition js_includes :: "string option \<Rightarrow> string \<Rightarrow> bool" where
  "js_includes s m = (case s of None \<Rightarrow> False | Some t \<Rightarrow> index_of t m)"

text \<open>
  \<open>String.prototype.replace\<close> with a string pattern: only the first occurrence is replaced.
  The replacement strings of this module (\<open>''''\<close> and \<open>''train''\<close>) hold no \<open>$\<close> pattern.
\<close>

fun replace :: "string \<Rightarrow> string \<Rightarrow> string \<Rightarrow> string" where
  "replace [] pat rep = (if pat = [] then rep else [])"
| "replace (c # cs) pat rep =
     (if starts_with (c # cs) pat then rep @ drop (length pat) (c # cs)
      else c # replace cs pat rep)"

text \<open>\<open>_.split(s, '/')\<close> and the indexing of its result inside a string concatenation.\<close>

fun split_str :: "string \<Rightarrow> char \<Rightarrow> string list" where
  "split_str [] d = [[]]"
| "split_str (c # cs) d =
     (if c = d then [] # split_str cs d
      else (case split_str cs d of [] \<Rightarrow> [[c]] | w # ws \<Rightarrow> (c # w) # ws))"

definition segment :: "string list \<Rightarrow> nat \<Rightarrow> string" where
  "segment ws i = (if i < length ws then ws ! i else ''undefined'')"

text \<open>Decimal rendering of a number inside a template string.\<close>

fun digits :: "nat \<Rightarrow> string" where
  "digits n =
     (if n < 10 then [''0123456789'' ! n]
      else digits (n div 10) @ [''0123456789'' ! (n mod 10)])"

subsection \<open>Data model\<close>

type_synonym bytes = string
type_synonym timestamp = string

text \<open>
  A photo record. \<open>similarity_date\<close> is \<open>None\<close> for \<open>null\<close>/\<open>undefined\<close>; a stored date
  (a \<open>Date\<close> or the ISO string written by \<open>compareFacesFromImage\<close>) is truthy when it is
  not the empty string.
\<close>

record photo =
  url :: string
  similarity :: jsnum
  similarity_date :: "timestamp option"

definition checked_out :: "photo \<Rightarrow> bool" where
  "checked_out p = (case similarity_date p of None \<Rightarrow> False | Some d \<Rightarrow> d \<noteq> [])"

text \<open>A face of the recognition collection.\<close>

record face =
  FaceId :: string
  ExternalImageId :: string

text \<open>An error object: its optional \<open>code\<close> and its \<open>message\<close>.\<close>

datatype error = Error (code: "string option") (message: string)

text \<open>The result of \<open>url.parse\<close>, as far as the module reads it.\<close>

record parsed_url =
  href :: string
  pathname :: string

record http_response =
  statusCode :: nat
  statusMessage :: string
  body :: bytes

text \<open>The options of \<open>savePhoto\<close>: \<open>resize\<close> is (width, height), \<open>rename\<close> is the \<open>prepend\<close> string.\<close>

record options =
  resize :: "(nat \<times> nat) option"
  rename :: "string option"

text \<open>
  The calls the module issues to its collaborators (HTTP client, object store, recognition
  service), in the order of issue. The bucket and the collection are those of the singleton.
\<close>

datatype call =
    RequestGet string
  | PutObject string bytes
  | DeleteObject string
  | CopyObject string string
  | ListObjects string
  | ListFaces
  | IndexFaces string
  | DeleteFaces "string list"
  | SearchFacesByImage bytes

text \<open>
  The state: the photo objects the callers hold (a store indexed by reference; a reference
  beyond the store stands for \<open>null\<close>/\<open>undefined\<close>), the objects of the bucket, the faces of
  the collection, the trace of collaborator calls and the warnings logged.
\<close>

record state =
  photos :: "photo list"
  objects :: "(string \<times> bytes) list"
  faces :: "face list"
  calls :: "call list"
  warnings :: "string list"

text \<open>
  The environment: the module's configuration and the answers of its collaborators. An
  answer \<open>Inl e\<close> (or \<open>Some e\<close> for a call without a result) is a rejection with error \<open>e\<close>.
  \<open>url.parse\<close>, the image resizer and the clock are library functions taken as parameters.
  \<open>url.parse\<close> returns an object for every string, and objects are truthy, so the guards
  \<open>if (!url)\<close> of \<open>savePhoto\<close> and \<open>acquireTaste\<close> never fire and have no branch here.
\<close>

record env =
  AWS_REGION :: string
  s3Bucket :: string
  parse :: "string \<Rightarrow> parsed_url"
  now :: timestamp
  request_get :: "string \<Rightarrow> error + http_response"
  sharp_resize :: "nat \<Rightarrow> nat \<Rightarrow> bytes \<Rightarrow> error + bytes"
  putObject :: "string \<Rightarrow> bytes \<Rightarrow> error option"
  deleteObject :: "string \<Rightarrow> error option"
  copyObject :: "string \<Rightarrow> string \<Rightarrow> error option"
  listObjects :: "string \<Rightarrow> error option"
  listFaces :: "error option"
  indexFaces :: "string \<Rightarrow> error + string list option"
  rekognition_deleteFaces :: "string list \<Rightarrow> error option"
  searchFacesByImage :: "bytes \<Rightarrow> error + real list"
  findOrCreateNewSettings :: "error + real"

definition issue :: "call \<Rightarrow> state \<Rightarrow> state" where
  "issue c st = st\<lparr>calls := calls st @ [c]\<rparr>"

definition warn :: "string \<Rightarrow> state \<Rightarrow> state" where
  "warn m st = st\<lparr>warnings := warnings st @ [m]\<rparr>"

definition deref :: "state \<Rightarrow> nat \<Rightarrow> photo option" where
  "deref st r = (if r < length (photos st) then Some (photos st ! r) else None)"

text \<open>
  The test \<open>_.some([...], (message) => _.includes(error.code, message))\<close> that both
  \<open>indexFacesFromImages\<close> and \<open>compareFacesFromImage\<close> apply to a caught error.
\<close>

definition invalid_image_error :: "error \<Rightarrow> bool" where
  "invalid_image_error e =
     (js_includes (code e) ''InvalidImageFormatException'' \<or>
      js_includes (code e) ''InvalidParameterException'')"

subsection \<open>Object store and recognition collection\<close>

text \<open>
  Modelled from the spec: the wrappers \<open>utils/s3\<close> and \<open>utils/rekognition\<close> are not part of
  the sources at hand. \<open>putObject\<close> stores (or overwrites) an object, \<open>deleteObject\<close> removes
  it, \<open>copyObject\<close> duplicates it under a new key, \<open>listObjects\<close> gives the keys under a
  prefix; \<open>indexFaces\<close> adds one face per detected face id, with the object key as
  \<open>ExternalImageId\<close>, and \<open>deleteFaces\<close> removes the faces with the given ids.
\<close>

definition store_object :: "string \<Rightarrow> bytes \<Rightarrow> state \<Rightarrow> state" where
  "store_object k b st = st\<lparr>objects := filter (\<lambda>kv. fst kv \<noteq> k) (objects st) @ [(k, b)]\<rparr>"

definition remove_object :: "string \<Rightarrow> state \<Rightarrow> state" where
  "remove_object k st = st\<lparr>objects := filter (\<lambda>kv. fst kv \<noteq> k) (objects st)\<rparr>"

definition copy_object :: "string \<Rightarrow> string \<Rightarrow> string \<Rightarrow> state \<Rightarrow> state" where
  "copy_object bucket srcKey dstKey st =
     (case map_of (objects st) (replace srcKey (''/'' @ bucket @ ''/'') []) of
        None \<Rightarrow> st
      | Some b \<Rightarrow> store_object dstKey b st)"

definition list_objects :: "string \<Rightarrow> state \<Rightarrow> string list" where
  "list_objects pre st = filter (\<lambda>k. starts_with k pre) (map fst (objects st))"

definition add_faces :: "string \<Rightarrow> string list \<Rightarrow> state \<Rightarrow> state" where
  "add_faces img ids st =
     st\<lparr>faces := faces st @ map (\<lambda>i. \<lparr>FaceId = i, ExternalImageId = img\<rparr>) ids\<rparr>"

definition remove_faces :: "string list \<Rightarrow> state \<Rightarrow> state" where
  "remove_faces ids st = st\<lparr>faces := filter (\<lambda>f. FaceId f \<notin> set ids) (faces st)\<rparr>"

subsection \<open>Face indexing\<close>

text \<open>
  \<open>deleteFaces\<close>: the number of faces deleted, or \<open>undefined\<close> (\<open>None\<close>) after the warning
  logged for a failed call.
\<close>

definition deleteFaces :: "env \<Rightarrow> string list \<Rightarrow> state \<Rightarrow> nat option \<times> state" where
  "deleteFaces env fs st =
     (let st1 = issue (DeleteFaces fs) st in
      case rekognition_deleteFaces env fs of
        None \<Rightarrow> (Some (length fs), remove_faces fs st1)
      | Some e \<Rightarrow> (None, warn (message e) st1))"

text \<open>
  The \<open>.catch\<close> handler of the per-image chain: the result is the increment of
  \<open>indexedFaces\<close> (none), or the rejection of the \<open>deleteObject\<close> call it returns.
\<close>

definition indexFaces_catch :: "env \<Rightarrow> string \<Rightarrow> error \<Rightarrow> state \<Rightarrow> (error + nat) \<times> state" where
  "indexFaces_catch env img e st =
     (if invalid_image_error e then
        (let st1 = issue (DeleteObject img) st in
         case deleteObject env img of
           None \<Rightarrow> (Inr 0, remove_object img st1)
         | Some e' \<Rightarrow> (Inl e', st1))
      else (Inr 0, warn (message e) st))"

text \<open>
  The mapper of \<open>indexFacesFromImages\<close> for one image. The answer \<open>Inr None\<close> of
  \<open>indexFaces\<close> is a response without \<open>FaceRecords\<close>.
\<close>

definition indexFacesFromImage :: "env \<Rightarrow> string \<Rightarrow> state \<Rightarrow> (error + nat) \<times> state" where
  "indexFacesFromImage env img st =
     (let st1 = issue (IndexFaces img) st in
      case indexFaces env img of
        Inl e \<Rightarrow> indexFaces_catch env img e st1
      | Inr None \<Rightarrow> (Inr 0, st1)
      | Inr (Some ids) \<Rightarrow>
          (let st2 = add_faces img ids st1 in
           if length ids \<noteq> 1 then
             (let st3 = issue (DeleteFaces ids) st2 in
              case rekognition_deleteFaces env ids of
                Some e \<Rightarrow> indexFaces_catch env img e st3
              | None \<Rightarrow>
                  (let st4 = issue (DeleteObject img) (remove_faces ids st3) in
                   case deleteObject env img of
                     Some e \<Rightarrow> indexFaces_catch env img e st4
                   | None \<Rightarrow> (Inr 0, remove_object img st4)))
           else (Inr 1, st2)))"

text \<open>
  \<open>indexFacesFromImages\<close>: the images in order, \<open>indexedFaces\<close> threaded through; the first
  rejected mapper rejects the whole map.
\<close>

fun indexFacesFromImages_from ::
  "env \<Rightarrow> string list \<Rightarrow> nat \<Rightarrow> state \<Rightarrow> (error + nat) \<times> state" where
  "indexFacesFromImages_from env [] indexedFaces st = (Inr indexedFaces, st)"
| "indexFacesFromImages_from env (img # images) indexedFaces st =
     (case indexFacesFromImage env img st of
        (Inl e, st1) \<Rightarrow> (Inl e, st1)
      | (Inr k, st1) \<Rightarrow> indexFacesFromImages_from env images (indexedFaces + k) st1)"

definition indexFacesFromImages :: "env \<Rightarrow> string list \<Rightarrow> state \<Rightarrow> (error + nat) \<times> state" where
  "indexFacesFromImages env images st = indexFacesFromImages_from env images 0 st"

subsection \<open>The collection synchronizer\<close>

text \<open>\<open>_.uniq\<close> keeps the first occurrence of each element; \<open>_.difference\<close> keeps order.\<close>

definition uniq :: "'a list \<Rightarrow> 'a list" where
  "uniq xs = rev (remdups (rev xs))"

definition difference :: "'a list \<Rightarrow> 'a list \<Rightarrow> 'a list" where
  "difference xs ys = filter (\<lambda>x. x \<notin> set ys) xs"

definition currentImages :: "state \<Rightarrow> string list" where
  "currentImages st = uniq (map ExternalImageId (faces st))"

definition availableImages :: "state \<Rightarrow> string list" where
  "availableImages st = list_objects ''train'' st"

definition imagesToDelete :: "state \<Rightarrow> string list" where
  "imagesToDelete st = difference (currentImages st) (availableImages st)"

definition imagesToIndex :: "state \<Rightarrow> string list" where
  "imagesToIndex st = difference (availableImages st) (currentImages st)"

definition facesToDelete :: "state \<Rightarrow> string list" where
  "facesToDelete st =
     concat (map (\<lambda>externalImageId.
                    map FaceId (filter (\<lambda>f. ExternalImageId f = externalImageId) (faces st)))
                 (imagesToDelete st))"

text \<open>
  \<open>syncS3BucketAndRekognitionCollection\<close>: the resolved value is the pair
  (\<open>deletedFaces\<close>, \<open>indexedFaces\<close>) that the final debug line reports.
\<close>

definition syncS3BucketAndRekognitionCollection ::
  "env \<Rightarrow> state \<Rightarrow> (error + nat option \<times> nat) \<times> state" where
  "syncS3BucketAndRekognitionCollection env st =
     (let st1 = issue (ListObjects ''train'') (issue ListFaces st) in
      case listFaces env of
        Some e \<Rightarrow> (Inl e, st1)
      | None \<Rightarrow>
          (case listObjects env ''train'' of
             Some e \<Rightarrow> (Inl e, st1)
           | None \<Rightarrow>
               (let toIndex = imagesToIndex st1;
                    (deletedFaces, st2) = deleteFaces env (facesToDelete st1) st1
                in case indexFacesFromImages env toIndex st2 of
                     (Inl e, st3) \<Rightarrow> (Inl e, st3)
                   | (Inr indexedFaces, st3) \<Rightarrow> (Inr (deletedFaces, indexedFaces), st3))))"

subsection \<open>Photo persistence\<close>

text \<open>
  A channel name is a string; the empty string stands for every falsy value of the argument.
  The first \<open>.then\<close> of \<open>savePhoto\<close>: the status check and the optional resize.
\<close>

definition savePhoto_body :: "env \<Rightarrow> parsed_url \<Rightarrow> options \<Rightarrow> http_response \<Rightarrow> error + bytes" where
  "savePhoto_body env u opts resp =
     (if statusCode resp \<noteq> 200 then
        Inl (Error None (''Unable to download photo '' @ href u @ '' because of '' @
                         digits (statusCode resp) @ '' '' @ statusMessage resp))
      else (case resize opts of
              Some (w, h) \<Rightarrow> sharp_resize env w h (body resp)
            | None \<Rightarrow> Inr (body resp)))"

text \<open>The path of the object below \<open>photos/<channel>/\<close>.\<close>

definition savePhoto_pathname :: "env \<Rightarrow> string \<Rightarrow> parsed_url \<Rightarrow> options \<Rightarrow> string" where
  "savePhoto_pathname env channelName u opts =
     (let p = replace (replace (drop 1 (pathname u)) ''cache/images/'' [])
                (s3Bucket env @ ''/photos/'' @ channelName @ ''/'') []
      in case rename opts of
           Some prepend \<Rightarrow>
             segment (split_str p CHR ''/'') 0 @ ''/'' @ prepend @ segment (split_str p CHR ''/'') 1
         | None \<Rightarrow> p)"

definition photo_url :: "env \<Rightarrow> string \<Rightarrow> string \<Rightarrow> string" where
  "photo_url env channelName p =
     ''https://s3-'' @ AWS_REGION env @ ''.amazonaws.com/'' @ s3Bucket env @ ''/photos/'' @
     channelName @ ''/'' @ p"

definition savePhoto ::
  "env \<Rightarrow> string \<Rightarrow> nat \<Rightarrow> options \<Rightarrow> state \<Rightarrow> (error + bytes) \<times> state" where
  "savePhoto env channelName r opts st =
     (case deref st r of
        None \<Rightarrow> (Inl (Error None ''invalid arguments''), st)
      | Some p \<Rightarrow>
          if channelName = [] then (Inl (Error None ''invalid arguments''), st)
          else
            (let u = parse env (url p);
                 st1 = issue (RequestGet (href u)) st
             in case request_get env (href u) of
                  Inl e \<Rightarrow> (Inl e, st1)
                | Inr resp \<Rightarrow>
                    (case savePhoto_body env u opts resp of
                       Inl e \<Rightarrow> (Inl e, st1)
                     | Inr b \<Rightarrow>
                         (let path = savePhoto_pathname env channelName u opts;
                              key = ''photos/'' @ channelName @ ''/'' @ path;
                              st2 = issue (PutObject key b) st1
                          in case putObject env key b of
                               Some e \<Rightarrow> (Inl e, st2)
                             | None \<Rightarrow>
                                 (Inr b,
                                  (store_object key b st2)
                                    \<lparr>photos := (photos st2)
                                       [r := p\<lparr>url := photo_url env channelName path\<rparr>]\<rparr>)))))"

subsection \<open>Photo check-out\<close>

text \<open>
  \<open>_.round(_.max(_.map(FaceMatches, 'Similarity')), 2) || 0\<close> on the similarities of the
  matches.
\<close>

definition best_similarity :: "real list \<Rightarrow> real" where
  "best_similarity ms =
     or_zero (js_round2 (case js_max (map Num ms) of Num m \<Rightarrow> Some m | _ \<Rightarrow> None))"

text \<open>
  The two assignments \<open>photo.similarity = x\<close> and \<open>photo.similarity_date = new
  Date().toISOString()\<close>, resolving to \<open>photo.similarity\<close>. Writing a field of a photo that
  is \<open>null\<close> throws a \<open>TypeError\<close>.
\<close>

definition set_similarity :: "env \<Rightarrow> nat \<Rightarrow> real \<Rightarrow> state \<Rightarrow> (error + jsnum) \<times> state" where
  "set_similarity env r x st =
     (case deref st r of
        None \<Rightarrow> (Inl (Error None ''TypeError''), st)
      | Some p \<Rightarrow>
          (Inr (Num x),
           st\<lparr>photos := (photos st)
                [r := p\<lparr>similarity := Num x, similarity_date := Some (now env)\<rparr>]\<rparr>))"

definition compareFacesFromImage ::
  "env \<Rightarrow> nat \<Rightarrow> bytes \<Rightarrow> state \<Rightarrow> (error + jsnum) \<times> state" where
  "compareFacesFromImage env r img st =
     (let st1 = issue (SearchFacesByImage img) st in
      case searchFacesByImage env img of
        Inr ms \<Rightarrow> set_similarity env r (best_similarity ms) st1
      | Inl e \<Rightarrow>
          if invalid_image_error e then set_similarity env r 0 st1
          else (Inl e, st1))"

definition no_options :: options where
  "no_options = \<lparr>resize = None, rename = None\<rparr>"

text \<open>
  \<open>checkPhotoOut\<close>: reading \<open>similarity_date\<close> of a \<open>null\<close> photo throws; every rejection of
  the chain is logged and the step resolves to \<open>undefined\<close>.
\<close>

definition checkPhotoOut :: "env \<Rightarrow> string \<Rightarrow> nat \<Rightarrow> state \<Rightarrow> (error + jsnum) \<times> state" where
  "checkPhotoOut env channelName r st =
     (case deref st r of
        None \<Rightarrow> (Inl (Error None ''TypeError''), st)
      | Some p \<Rightarrow>
          if checked_out p then (Inr (similarity p), st)
          else
            (case savePhoto env channelName r no_options st of
               (Inl e, st1) \<Rightarrow> (Inr Undefined, warn (message e) st1)
             | (Inr img, st1) \<Rightarrow>
                 (case compareFacesFromImage env r img st1 of
                    (Inl e, st2) \<Rightarrow> (Inr Undefined, warn (message e) st2)
                  | (Inr v, st2) \<Rightarrow> (Inr v, st2))))"

text \<open>The \<open>.map\<close> of \<open>checkPhotosOut\<close> over the photos.\<close>

fun checkPhotosOut_map ::
  "env \<Rightarrow> string \<Rightarrow> nat list \<Rightarrow> state \<Rightarrow> (error + jsnum list) \<times> state" where
  "checkPhotosOut_map env channelName [] st = (Inr [], st)"
| "checkPhotosOut_map env channelName (r # rs) st =
     (case checkPhotoOut env channelName r st of
        (Inl e, st1) \<Rightarrow> (Inl e, st1)
      | (Inr v, st1) \<Rightarrow>
          (case checkPhotosOut_map env channelName rs st1 of
             (Inl e, st2) \<Rightarrow> (Inl e, st2)
           | (Inr vs, st2) \<Rightarrow> (Inr (v # vs), st2)))"

record check_result =
  faceSimilarities :: "jsnum list"
  faceSimilarityMax :: jsnum
  faceSimilarityMin :: jsnum
  faceSimilarityMean :: real
  like :: bool

text \<open>
  The aggregation inside \<open>checkPhotosOut\<close>, for the similarity list and the value of
  \<open>settings.likePhotosThreshold\<close>.
\<close>

definition checkPhotosOut_result :: "jsnum list \<Rightarrow> real \<Rightarrow> check_result" where
  "checkPhotosOut_result sims likePhotosThreshold =
     (let mean = or_zero (js_round2 (js_mean (without_zero_undefined sims)))
      in \<lparr>faceSimilarities = sims,
          faceSimilarityMax = js_max sims,
          faceSimilarityMin = js_min sims,
          faceSimilarityMean = mean,
          like = (sims \<noteq> [] \<and> mean > likePhotosThreshold)\<rparr>)"

text \<open>
  \<open>checkPhotosOut\<close>: \<open>photos\<close> is \<open>None\<close> when the argument is missing. The debug line about
  the photos not yet checked out has no effect on the state modelled here.
\<close>

definition checkPhotosOut ::
  "env \<Rightarrow> string \<Rightarrow> nat list option \<Rightarrow> state \<Rightarrow> (error + check_result) \<times> state" where
  "checkPhotosOut env channelName ps st =
     (case ps of
        None \<Rightarrow> (Inl (Error None ''invalid arguments''), st)
      | Some rs \<Rightarrow>
          if channelName = [] then (Inl (Error None ''invalid arguments''), st)
          else
            (case checkPhotosOut_map env channelName rs st of
               (Inl e, st1) \<Rightarrow> (Inl e, st1)
             | (Inr sims, st1) \<Rightarrow>
                 (case findOrCreateNewSettings env of
                    Inl e \<Rightarrow> (Inl e, st1)
                  | Inr threshold \<Rightarrow> (Inr (checkPhotosOut_result sims threshold), st1))))"

subsection \<open>Thumbnails and taste acquisition\<close>

definition thumbnail_options :: options where
  "thumbnail_options = \<lparr>resize = Some (84, 84), rename = Some ''84x84_''\<rparr>"

text \<open>
  \<open>mentalSnapshot\<close>: \<open>_.clone(photo)\<close> allocates a new object, at the end of the store.
\<close>

definition mentalSnapshot :: "env \<Rightarrow> string \<Rightarrow> nat \<Rightarrow> state \<Rightarrow> (error + string) \<times> state" where
  "mentalSnapshot env channelName r st =
     (case deref st r of
        None \<Rightarrow> (Inl (Error None ''invalid arguments''), st)
      | Some p \<Rightarrow>
          if channelName = [] then (Inl (Error None ''invalid arguments''), st)
          else
            (let thumbnail = length (photos st);
                 st1 = st\<lparr>photos := photos st @ [p]\<rparr>
             in case savePhoto env channelName thumbnail thumbnail_options st1 of
                  (Inl e, st2) \<Rightarrow> (Inl e, st2)
                | (Inr b, st2) \<Rightarrow> (Inr (url (photos st2 ! thumbnail)), st2)))"

text \<open>The destination key of \<open>acquireTaste\<close> for the path of a photo URL.\<close>

definition dstKey :: "env \<Rightarrow> string \<Rightarrow> string" where
  "dstKey env srcKey = replace srcKey (''/'' @ s3Bucket env @ ''/photos'') ''train''"

fun acquireTaste_map :: "env \<Rightarrow> nat list \<Rightarrow> state \<Rightarrow> (error + string list) \<times> state" where
  "acquireTaste_map env [] st = (Inr [], st)"
| "acquireTaste_map env (r # rs) st =
     (case deref st r of
        None \<Rightarrow> (Inl (Error None ''TypeError''), st)
      | Some p \<Rightarrow>
          (let srcKey = pathname (parse env (url p));
               st1 = issue (CopyObject srcKey (dstKey env srcKey)) st
           in case copyObject env srcKey (dstKey env srcKey) of
                Some e \<Rightarrow> (Inl e, st1)
              | None \<Rightarrow>
                  (case acquireTaste_map env rs
                          (copy_object (s3Bucket env) srcKey (dstKey env srcKey) st1) of
                     (Inl e, st2) \<Rightarrow> (Inl e, st2)
                   | (Inr keys, st2) \<Rightarrow> (Inr (dstKey env srcKey # keys), st2))))"

definition acquireTaste :: "env \<Rightarrow> nat list \<Rightarrow> state \<Rightarrow> (error + nat) \<times> state" where
  "acquireTaste env rs st =
     (case acquireTaste_map env rs st of
        (Inl e, st1) \<Rightarrow> (Inl e, st1)
      | (Inr images, st1) \<Rightarrow> indexFacesFromImages env images st1)"

subsection \<open>The specification's wording of the mean\<close>



subsection \<open>Predicates of the statements\<close>

text \<open>An image for which \<open>indexFaces\<close> reports exactly one face.\<close>

definition single_face :: "env \<Rightarrow> string \<Rightarrow> bool" where
  "single_face env img =
     (case indexFaces env img of Inr (Some ids) \<Rightarrow> length ids = 1 | _ \<Rightarrow> False)"

text \<open>
  A pass of the synchronizer that runs successfully: the listing calls and the batched
  deletion succeed, the face ids of the collection are distinct, and for every image
  to index the service answers with its face records, where the purge of an image with
  no or several faces succeeds and the face ids reported for such an image are new (they
  are neither in the collection nor reported for an image that is kept).
\<close>

definition kept_face_ids :: "env \<Rightarrow> state \<Rightarrow> string list" where
  "kept_face_ids env st =
     map FaceId (faces st) @
     concat (map (\<lambda>img. case indexFaces env img of
                           Inr (Some ids) \<Rightarrow> if length ids = 1 then ids else []
                         | _ \<Rightarrow> [])
                 (imagesToIndex st))"

definition indexing_succeeds :: "env \<Rightarrow> state \<Rightarrow> string \<Rightarrow> bool" where
  "indexing_succeeds env st img =
     (case indexFaces env img of
        Inr (Some ids) \<Rightarrow>
          length ids = 1 \<or>
          (rekognition_deleteFaces env ids = None \<and> deleteObject env img = None \<and>
           list_all (\<lambda>i. i \<notin> set (kept_face_ids env st)) ids)
      | _ \<Rightarrow> False)"

definition successful_run :: "env \<Rightarrow> state \<Rightarrow> bool" where
  "successful_run env st =
     (listFaces env = None \<and> listObjects env ''train'' = None \<and>
      distinct (map FaceId (faces st)) \<and>
      rekognition_deleteFaces env (facesToDelete st) = None \<and>
      list_all (indexing_succeeds env st) (imagesToIndex st))"

text \<open>
  The same condition on one image, relative to a set of face ids that must not be deleted;
  it is the invariant of the loop of \<open>indexFacesFromImages\<close>.
\<close>

definition step_ok :: "env \<Rightarrow> string set \<Rightarrow> string \<Rightarrow> bool" where
  "step_ok env A img =
     (case indexFaces env img of
        Inr (Some ids) \<Rightarrow>
          (length ids = 1 \<and> set ids \<subseteq> A) \<or>
          (length ids \<noteq> 1 \<and> rekognition_deleteFaces env ids = None \<and>
           deleteObject env img = None \<and> set ids \<inter> A = {})
      | _ \<Rightarrow> False)"

subsection \<open>Example inputs\<close>

text \<open>A stand-in for \<open>url.parse\<close> on plain \<open>http://host/path\<close> URLs.\<close>

definition example_parse :: "string \<Rightarrow> parsed_url" where
  "example_parse u = \<lparr>href = u, pathname = dropWhile (\<lambda>c. c \<noteq> CHR ''/'') (drop 7 u)\<rparr>"

text \<open>Collaborators that answer every call; each image shows one face.\<close>

definition example_env :: env where
  "example_env =
     \<lparr>AWS_REGION = ''eu-west-1'', s3Bucket = ''bucket'',
      parse = example_parse,
      now = ''2017-06-01T00:00:00.000Z'',
      request_get = (\<lambda>h. Inr \<lparr>statusCode = 200, statusMessage = ''OK'', body = ''jpeg''\<rparr>),
      sharp_resize = (\<lambda>w h b. Inr (''resized '' @ b)),
      putObject = (\<lambda>k b. None),
      deleteObject = (\<lambda>k. None),
      copyObject = (\<lambda>s d. None),
      listObjects = (\<lambda>p. None),
      listFaces = None,
      indexFaces = (\<lambda>k. Inr (Some [''face-of-'' @ k])),
      rekognition_deleteFaces = (\<lambda>ids. None),
      searchFacesByImage = (\<lambda>b. Inr [80.126, 70]),
      findOrCreateNewSettings = Inr 84\<rparr>"

definition example_photo :: "string \<Rightarrow> jsnum \<Rightarrow> timestamp option \<Rightarrow> photo" where
  "example_photo u s d = \<lparr>url = u, similarity = s, similarity_date = d\<rparr>"

definition example_state :: "photo list \<Rightarrow> state" where
  "example_state ps = \<lparr>photos = ps, objects = [], faces = [], calls = [], warnings = []\<rparr>"


definition invalid_image_env :: env where
  "invalid_image_env = example_env\<lparr>
     searchFacesByImage := (\<lambda>b. Inl (Error (Some ''InvalidImageFormatException'') ''bad image'')),
     indexFaces := (\<lambda>k. Inl (Error (Some ''InvalidImageFormatException'') ''bad image''))\<rparr>"

text \<open>Settings with a negative threshold.\<close>

definition negative_threshold_env :: env where
  "negative_threshold_env = example_env\<lparr>findOrCreateNewSettings := Inr (- 1)\<rparr>"

text \<open>
  A recognition service that sees two faces in every image, one that rejects every
  indexing call with a throttling error, and a bucket with one training image.
\<close>

definition two_faces_env :: env where
  "two_faces_env = example_env\<lparr>indexFaces := (\<lambda>k. Inr (Some [''f1'', ''f2'']))\<rparr>"

definition throttled_env :: env where
  "throttled_env = example_env\<lparr>indexFaces :=
     (\<lambda>k. Inl (Error (Some ''ThrottlingException'') ''Rate exceeded''))\<rparr>"

definition example_bucket :: state where
  "example_bucket =
     \<lparr>photos = [], objects = [(''train/a.jpg'', ''jpeg'')],
      faces = [], calls = [], warnings = []\<rparr>"

text \<open>
  A collection and a bucket out of step: one face whose image is gone, one image not yet
  indexed, one image with two faces; and the state after one pass.
\<close>

definition sync_env :: env where
  "sync_env = example_env\<lparr>indexFaces :=
     (\<lambda>k. if k = ''train/group.jpg'' then Inr (Some [''g1'', ''g2''])
          else Inr (Some [''face-of-'' @ k]))\<rparr>"

definition sync_state :: state where
  "sync_state =
     \<lparr>photos = [],
      objects = [(''train/a.jpg'', ''A''), (''train/new.jpg'', ''N''),
                 (''train/group.jpg'', ''G'')],
      faces = [\<lparr>FaceId = ''f-a'', ExternalImageId = ''train/a.jpg''\<rparr>,
               \<lparr>FaceId = ''f-gone'', ExternalImageId = ''train/gone.jpg''\<rparr>],
      calls = [], warnings = []\<rparr>"

definition synced_state :: state where
  "synced_state =
     \<lparr>photos = [],
      objects = [(''train/a.jpg'', ''A''), (''train/new.jpg'', ''N'')],
      faces = [\<lparr>FaceId = ''f-a'', ExternalImageId = ''train/a.jpg''\<rparr>,
               \<lparr>FaceId = ''face-of-train/new.jpg'', ExternalImageId = ''train/new.jpg''\<rparr>],
      calls = [ListFaces, ListObjects ''train'', DeleteFaces [''f-gone''],
               IndexFaces ''train/new.jpg'', IndexFaces ''train/group.jpg'',
               DeleteFaces [''g1'', ''g2''], DeleteObject ''train/group.jpg''],
      warnings = []\<rparr>"

section \<open>Properties\<close>

lemmas eval_defs =
  checkPhotosOut_def checkPhotoOut_def deref_def example_state_def example_photo_def
  checked_out_def example_env_def example_parse_def savePhoto_def savePhoto_body_def
  savePhoto_pathname_def photo_url_def compareFacesFromImage_def set_similarity_def
  best_similarity_def js_max_def js_min_def issue_def warn_def store_object_def
  remove_object_def no_options_def thumbnail_options_def mentalSnapshot_def
  checkPhotosOut_result_def without_zero_undefined_def js_mean_def base_sum_def
  js_round2_def round2_def or_zero_def invalid_image_error_def js_includes_def
  segment_def dstKey_def acquireTaste_def copy_object_def indexFacesFromImages_def
  indexFacesFromImage_def indexFaces_catch_def add_faces_def remove_faces_def Let_def

subsection \<open>The trace of collaborator calls only grows\<close>

lemma indexFacesFromImage_calls:
  "\<exists>cs. calls (snd (indexFacesFromImage env img st)) = calls st @ IndexFaces img # cs"
  by (auto simp: indexFacesFromImage_def indexFaces_catch_def Let_def issue_def warn_def
      add_faces_def remove_faces_def remove_object_def split: sum.splits option.splits)

lemma indexFacesFromImages_from_calls:
  "\<exists>cs. calls (snd (indexFacesFromImages_from env images n st)) = calls st @ cs"
proof (induction images arbitrary: n st)
  case Nil
  then show ?case by simp
next
  case (Cons img images)
  obtain res st1 where step: "indexFacesFromImage env img st = (res, st1)"
    by (cases "indexFacesFromImage env img st")
  from indexFacesFromImage_calls [of env img st] step
  obtain cs where cs: "calls st1 = calls st @ IndexFaces img # cs" by auto
  show ?case
  proof (cases res)
    case (Inl e)
    with step cs show ?thesis by simp
  next
    case (Inr k)
    from Cons.IH [of "n + k" st1]
    obtain ds where "calls (snd (indexFacesFromImages_from env images (n + k) st1)) = calls st1 @ ds"
      by blast
    with step cs Inr show ?thesis by simp
  qed
qed

lemma copy_object_calls:
  "calls (copy_object b src dst (issue (CopyObject src dst) st)) = calls st @ [CopyObject src dst]"
  by (simp add: copy_object_def store_object_def issue_def split: option.splits)

lemma acquireTaste_map_calls:
  "\<exists>cs. calls (snd (acquireTaste_map env rs st)) = calls st @ cs"
proof (induction rs arbitrary: st)
  case Nil
  then show ?case by simp
next
  case (Cons r rs)
  show ?case
  proof (cases "deref st r")
    case None
    then show ?thesis by simp
  next
    case (Some p)
    let ?src = "pathname (parse env (url p))"
    let ?st1 = "copy_object (s3Bucket env) ?src (dstKey env ?src)
                  (issue (CopyObject ?src (dstKey env ?src)) st)"
    from Cons.IH [of ?st1] obtain ds where
      "calls (snd (acquireTaste_map env rs ?st1)) = calls ?st1 @ ds" by blast
    with copy_object_calls [of "s3Bucket env" ?src "dstKey env ?src" st] Some show ?thesis
      by (auto simp: Let_def issue_def split: option.splits prod.splits sum.splits)
  qed
qed

lemma acquireTaste_map_first_call:
  assumes "deref st r = Some p"
  shows "\<exists>cs. calls (snd (acquireTaste_map env (r # rs) st)) =
           calls st @ CopyObject (pathname (parse env (url p)))
                                 (dstKey env (pathname (parse env (url p)))) # cs"
proof -
  let ?src = "pathname (parse env (url p))"
  let ?st1 = "copy_object (s3Bucket env) ?src (dstKey env ?src)
                (issue (CopyObject ?src (dstKey env ?src)) st)"
  from acquireTaste_map_calls [of env rs ?st1] obtain ds where
    "calls (snd (acquireTaste_map env rs ?st1)) = calls ?st1 @ ds" by blast
  with copy_object_calls [of "s3Bucket env" ?src "dstKey env ?src" st] assms show ?thesis
    by (auto simp: Let_def issue_def split: option.splits prod.splits sum.splits)
qed

subsection \<open>Strings\<close>

lemma starts_with_append: "starts_with (p @ s) p"
  by (induction p) auto

lemma replace_prefix: "replace (p @ s) p rep = rep @ s"
proof (cases "p @ s")
  case Nil
  then show ?thesis by simp
next
  case (Cons a list)
  have "starts_with (a # list) p"
    using starts_with_append [of p s] Cons by simp
  moreover have "drop (length p) (a # list) = s"
    using Cons by (metis append_eq_conv_conj)
  ultimately show ?thesis
    using Cons by simp
qed

lemma dstKey_prefix:
  "dstKey env (''/'' @ s3Bucket env @ ''/photos'' @ rest) = ''train'' @ rest"
  using replace_prefix [of "''/'' @ s3Bucket env @ ''/photos''" rest "''train''"]
  by (simp add: dstKey_def)

subsection \<open>The aggregation of a batch\<close>



lemma checkPhotosOut_Inr:
  assumes "checkPhotosOut env channelName ps st = (Inr res, st')"
  shows "\<exists>t sims rs. findOrCreateNewSettings env = Inr t \<and> ps = Some rs \<and>
           checkPhotosOut_map env channelName rs st = (Inr sims, st') \<and>
           res = checkPhotosOut_result sims t"
  using assms
  by (auto simp: checkPhotosOut_def split: option.splits if_splits prod.splits sum.splits)

subsection \<open>Claims\<close>

text \<open>
  C2: for a photo whose \<open>similarity_date\<close> is already set, \<open>checkPhotoOut\<close> returns the
  photo's \<open>similarity\<close> and leaves the whole state as it was: no collaborator call is
  added to the trace, and the photo keeps its \<open>url\<close>, \<open>similarity\<close> and \<open>similarity_date\<close>.
\<close>

theorem checkPhotoOut_memoized:
  assumes "deref st r = Some p" and "checked_out p"
  shows "checkPhotoOut env channelName r st = (Inr (similarity p), st)"
  using assms by (simp add: checkPhotoOut_def)

theorem checkPhotoOut_memoized_witness:
  "checkPhotoOut example_env ''tinder'' 0
     (example_state [example_photo ''http://a.com/1.jpg'' (Num 80) (Some ''2017-05-01'')])
   = (Inr (Num 80),
      example_state [example_photo ''http://a.com/1.jpg'' (Num 80) (Some ''2017-05-01'')])"
  using checkPhotoOut_memoized
    [of "example_state [example_photo ''http://a.com/1.jpg'' (Num 80) (Some ''2017-05-01'')]" 0
        "example_photo ''http://a.com/1.jpg'' (Num 80) (Some ''2017-05-01'')"
        example_env "''tinder''"]
  by (simp add: deref_def example_state_def example_photo_def checked_out_def)



text \<open>
  C7 (as amended): when \<open>checkPhotosOut\<close> resolves with the similarity list \<open>[0, 0]\<close>,
  \<open>faceSimilarityMean\<close> is \<open>0\<close>, and \<open>like\<close> is false for every
  \<open>settings.likePhotosThreshold\<close> that is not negative.
\<close>

theorem zero_similarities_no_like:
  assumes "checkPhotosOut env channelName ps st = (Inr res, st')"
    and "faceSimilarities res = [Num 0, Num 0]"
    and "findOrCreateNewSettings env = Inr t" and "0 \<le> t"
  shows "faceSimilarityMean res = 0 \<and> \<not> like res"
proof -
  from checkPhotosOut_Inr [OF assms(1)] assms(3) obtain sims where
    res: "res = checkPhotosOut_result sims t" by auto
  with assms(2) have "sims = [Num 0, Num 0]"
    by (simp add: checkPhotosOut_result_def Let_def)
  with res assms(4) show ?thesis
    by (simp add: checkPhotosOut_result_def without_zero_undefined_def js_mean_def
        js_round2_def or_zero_def)
qed

theorem zero_similarities_no_like_witness:
  "fst (checkPhotosOut example_env ''tinder'' (Some [0, 1])
     (example_state [example_photo ''http://a.com/1.jpg'' (Num 0) (Some ''2017-05-01''),
                     example_photo ''http://a.com/2.jpg'' (Num 0) (Some ''2017-05-01'')])) =
   Inr \<lparr>faceSimilarities = [Num 0, Num 0], faceSimilarityMax = Num 0,
        faceSimilarityMin = Num 0, faceSimilarityMean = 0, like = False\<rparr>"
proof -
  let ?st = "example_state [example_photo ''http://a.com/1.jpg'' (Num 0) (Some ''2017-05-01''),
                            example_photo ''http://a.com/2.jpg'' (Num 0) (Some ''2017-05-01'')]"
  let ?res = "\<lparr>faceSimilarities = [Num 0, Num 0], faceSimilarityMax = Num 0,
        faceSimilarityMin = Num 0, faceSimilarityMean = 0, like = False\<rparr>"
  have run: "checkPhotosOut example_env ''tinder'' (Some [0, 1]) ?st = (Inr ?res, ?st)"
    by (simp add: eval_defs)
  have t: "findOrCreateNewSettings example_env = Inr 84"
    by (simp add: example_env_def)
  from zero_similarities_no_like [OF run _ t] run show ?thesis
    by simp
qed

text \<open>
  C7 (as stated) fails for a negative threshold: with the threshold \<open>-1\<close> and two photos
  checked out earlier with similarity \<open>0\<close>, the mean \<open>0\<close> exceeds the threshold and
  \<open>checkPhotosOut\<close> resolves with \<open>like = true\<close>.
\<close>

theorem zero_similarities_counterexample:
  "fst (checkPhotosOut negative_threshold_env ''tinder'' (Some [0, 1])
     (example_state [example_photo ''http://a.com/1.jpg'' (Num 0) (Some ''2017-05-01''),
                     example_photo ''http://a.com/2.jpg'' (Num 0) (Some ''2017-05-01'')])) =
   Inr \<lparr>faceSimilarities = [Num 0, Num 0], faceSimilarityMax = Num 0,
        faceSimilarityMin = Num 0, faceSimilarityMean = 0, like = True\<rparr>"
  by (simp add: eval_defs negative_threshold_env_def)

text \<open>
  C8: \<open>acquireTaste\<close> derives the training key from the path of the photo URL by putting
  \<open>train\<close> in place of the prefix \<open>/<bucket>/photos\<close>, and the copy call issued for the photo
  carries that key: for the bucket \<open>bucket\<close> the path \<open>/bucket/photos/channel123/abc.jpg\<close>
  is copied to \<open>train/channel123/abc.jpg\<close>.
\<close>

theorem acquireTaste_key_mapping:
  assumes "deref st r = Some p"
    and "pathname (parse env (url p)) = ''/'' @ s3Bucket env @ ''/photos'' @ rest"
  shows "dstKey env (pathname (parse env (url p))) = ''train'' @ rest \<and>
         (\<exists>cs. calls (snd (acquireTaste env (r # rs) st)) =
            calls st @
            CopyObject (''/'' @ s3Bucket env @ ''/photos'' @ rest) (''train'' @ rest) # cs)"
proof -
  have key: "dstKey env (pathname (parse env (url p))) = ''train'' @ rest"
    using assms(2) dstKey_prefix [of env rest] by simp
  from acquireTaste_map_first_call [OF assms(1), of env rs] key assms(2)
  obtain cs where cs: "calls (snd (acquireTaste_map env (r # rs) st)) =
      calls st @ CopyObject (''/'' @ s3Bucket env @ ''/photos'' @ rest) (''train'' @ rest) # cs"
    by auto
  obtain res st1 where m: "acquireTaste_map env (r # rs) st = (res, st1)"
    by (cases "acquireTaste_map env (r # rs) st")
  have "\<exists>ds. calls (snd (acquireTaste env (r # rs) st)) = calls st1 @ ds"
  proof (cases res)
    case (Inl e)
    with m show ?thesis by (simp add: acquireTaste_def)
  next
    case (Inr images)
    with m indexFacesFromImages_from_calls [of env images 0 st1] show ?thesis
      by (simp add: acquireTaste_def indexFacesFromImages_def)
  qed
  with cs m key show ?thesis by auto
qed

theorem acquireTaste_key_mapping_witness:
  "dstKey example_env ''/bucket/photos/channel123/abc.jpg'' = ''train/channel123/abc.jpg'' \<and>
   (\<exists>cs. calls (snd (acquireTaste example_env [0]
       (example_state [example_photo ''http://s3.amazonaws.com/bucket/photos/channel123/abc.jpg''
                         (Num 90) (Some ''2017-05-01'')]))) =
     CopyObject ''/bucket/photos/channel123/abc.jpg'' ''train/channel123/abc.jpg'' # cs)"
  using acquireTaste_key_mapping
    [of "example_state [example_photo ''http://s3.amazonaws.com/bucket/photos/channel123/abc.jpg''
                          (Num 90) (Some ''2017-05-01'')]"
        0
        "example_photo ''http://s3.amazonaws.com/bucket/photos/channel123/abc.jpg''
           (Num 90) (Some ''2017-05-01'')"
        example_env "''/channel123/abc.jpg''" "[]"]
  by (simp add: deref_def example_state_def example_photo_def example_env_def example_parse_def)



lemma savePhoto_Inr:
  assumes "savePhoto env channelName r opts st = (Inr b, st1)" and "deref st r = Some p"
  shows "channelName \<noteq> [] \<and> (\<exists>u. deref st1 r = Some (p\<lparr>url := u\<rparr>)) \<and>
         warnings st1 = warnings st \<and> length (photos st1) = length (photos st)"
  using assms
  by (auto simp: savePhoto_def Let_def issue_def store_object_def deref_def
      split: option.splits if_splits sum.splits)

text \<open>
  C5: when the photo has been stored and the face search is rejected with an error whose
  code contains \<open>InvalidImageFormatException\<close> or \<open>InvalidParameterException\<close>,
  \<open>compareFacesFromImage\<close> resolves to \<open>0\<close>, the photo gets \<open>similarity = 0\<close> and a
  \<open>similarity_date\<close>, nothing is logged by \<open>checkPhotoOut\<close>, and \<open>checkPhotosOut\<close> on the
  batch resolves with the similarity list \<open>[0]\<close>: no error reaches its caller.
\<close>

theorem malformed_image_on_compare:
  assumes "deref st r = Some p" and "\<not> checked_out p"
    and "savePhoto env channelName r no_options st = (Inr img, st1)"
    and "searchFacesByImage env img = Inl e" and "invalid_image_error e"
    and "findOrCreateNewSettings env = Inr t"
  shows "\<exists>st2 p'. compareFacesFromImage env r img st1 = (Inr (Num 0), st2) \<and>
           checkPhotoOut env channelName r st = (Inr (Num 0), st2) \<and>
           deref st2 r = Some p' \<and> similarity p' = Num 0 \<and>
           similarity_date p' = Some (now env) \<and> warnings st2 = warnings st \<and>
           checkPhotosOut env channelName (Some [r]) st =
             (Inr (checkPhotosOut_result [Num 0] t), st2)"
proof -
  from savePhoto_Inr [OF assms(3) assms(1)] obtain u where
    ch: "channelName \<noteq> []" and p1: "deref st1 r = Some (p\<lparr>url := u\<rparr>)"
    and w1: "warnings st1 = warnings st" by blast
  define st2 where "st2 = snd (compareFacesFromImage env r img st1)"
  have cmp: "compareFacesFromImage env r img st1 = (Inr (Num 0), st2)"
    using p1 assms(4,5) unfolding st2_def
    by (simp add: compareFacesFromImage_def set_similarity_def Let_def deref_def issue_def
        split: if_splits)
  have p2: "deref st2 r = Some (p\<lparr>url := u, similarity := Num 0, similarity_date := Some (now env)\<rparr>)"
    using p1 assms(4,5) unfolding st2_def
    by (simp add: compareFacesFromImage_def set_similarity_def Let_def deref_def issue_def
        split: if_splits)
  have w2: "warnings st2 = warnings st"
    using p1 assms(4,5) w1 unfolding st2_def
    by (simp add: compareFacesFromImage_def set_similarity_def Let_def deref_def issue_def
        split: if_splits)
  have one: "checkPhotoOut env channelName r st = (Inr (Num 0), st2)"
    using assms(1,2,3) cmp by (simp add: checkPhotoOut_def)
  have batch: "checkPhotosOut env channelName (Some [r]) st =
      (Inr (checkPhotosOut_result [Num 0] t), st2)"
    using one ch assms(6) by (simp add: checkPhotosOut_def)
  from cmp one p2 w2 batch show ?thesis by simp
qed

theorem malformed_image_on_compare_witness:
  "fst (checkPhotosOut invalid_image_env ''tinder'' (Some [0])
         (example_state [example_photo ''http://a.com/1.jpg'' Null None])) =
   Inr \<lparr>faceSimilarities = [Num 0], faceSimilarityMax = Num 0, faceSimilarityMin = Num 0,
        faceSimilarityMean = 0, like = False\<rparr>"
proof -
  let ?st = "example_state [example_photo ''http://a.com/1.jpg'' Null None]"
  let ?st1 = "\<lparr>photos = [example_photo ''https://s3-eu-west-1.amazonaws.com/bucket/photos/tinder/1.jpg'' Null None],
      objects = [(''photos/tinder/1.jpg'', ''jpeg'')], faces = [],
      calls = [RequestGet ''http://a.com/1.jpg'', PutObject ''photos/tinder/1.jpg'' ''jpeg''],
      warnings = []\<rparr>"
  have a: "deref ?st 0 = Some (example_photo ''http://a.com/1.jpg'' Null None)"
    by (simp add: deref_def example_state_def)
  have b: "\<not> checked_out (example_photo ''http://a.com/1.jpg'' Null None)"
    by (simp add: checked_out_def example_photo_def)
  have c: "savePhoto invalid_image_env ''tinder'' 0 no_options ?st = (Inr ''jpeg'', ?st1)"
    by (simp add: eval_defs invalid_image_env_def)
  have d: "searchFacesByImage invalid_image_env ''jpeg'' =
      Inl (Error (Some ''InvalidImageFormatException'') ''bad image'')"
    by (simp add: invalid_image_env_def)
  have e: "invalid_image_error (Error (Some ''InvalidImageFormatException'') ''bad image'')"
    by (simp add: invalid_image_error_def js_includes_def)
  have f: "findOrCreateNewSettings invalid_image_env = Inr 84"
    by (simp add: invalid_image_env_def example_env_def)
  from malformed_image_on_compare [OF a b c d e f] show ?thesis
    by (auto simp: checkPhotosOut_result_def without_zero_undefined_def js_mean_def
        js_round2_def or_zero_def js_max_def js_min_def)
qed

lemma savePhoto_photos:
  "\<exists>q. photos (snd (savePhoto env channelName r opts st)) = (photos st)[r := q]"
proof (cases "photos (snd (savePhoto env channelName r opts st)) = photos st")
  case True
  then have "photos (snd (savePhoto env channelName r opts st)) = (photos st)[r := photos st ! r]"
    by simp
  then show ?thesis ..
next
  case False
  then show ?thesis
    by (auto simp: savePhoto_def Let_def issue_def store_object_def
        split: option.splits if_splits sum.splits)
qed

lemma mentalSnapshot_frame:
  "take (length (photos st)) (photos (snd (mentalSnapshot env channelName r st))) = photos st"
proof (cases "deref st r = None \<or> channelName = []")
  case True
  then show ?thesis
    by (auto simp: mentalSnapshot_def split: option.splits)
next
  case False
  then obtain p where p: "deref st r = Some p" and ch: "channelName \<noteq> []" by auto
  let ?st1 = "st\<lparr>photos := photos st @ [p]\<rparr>"
  from savePhoto_photos [of env channelName "length (photos st)" thumbnail_options ?st1]
  obtain q where
    "photos (snd (savePhoto env channelName (length (photos st)) thumbnail_options ?st1)) =
       (photos ?st1)[length (photos st) := q]" by blast
  then have "take (length (photos st))
      (photos (snd (savePhoto env channelName (length (photos st)) thumbnail_options ?st1))) = photos st"
    by simp
  with p ch show ?thesis
    by (auto simp: mentalSnapshot_def Let_def split: prod.splits sum.splits)
qed

text \<open>
  C9: \<open>mentalSnapshot\<close> never changes a photo object that existed before the call (the
  clone it works on is a new object). When the download answers 200 and the resize and the
  upload succeed, it stores the image resized to 84 by 84 under the path renamed with
  \<open>84x84_\<close>, resolves to the URL of that object, and the photo passed in is as before.
\<close>

theorem mentalSnapshot_thumbnail:
  "take (length (photos st)) (photos (snd (mentalSnapshot env channelName r st))) = photos st \<and>
   (deref st r = Some p \<and> channelName \<noteq> [] \<and>
    request_get env (href (parse env (url p))) = Inr resp \<and> statusCode resp = 200 \<and>
    sharp_resize env 84 84 (body resp) = Inr b \<and>
    putObject env (''photos/'' @ channelName @ ''/'' @
        savePhoto_pathname env channelName (parse env (url p)) thumbnail_options) b = None
    \<longrightarrow>
    (\<exists>st'. mentalSnapshot env channelName r st =
        (Inr (photo_url env channelName
               (savePhoto_pathname env channelName (parse env (url p)) thumbnail_options)), st') \<and>
      (''photos/'' @ channelName @ ''/'' @
         savePhoto_pathname env channelName (parse env (url p)) thumbnail_options, b)
        \<in> set (objects st') \<and>
      deref st' r = Some p))"
proof (intro conjI impI)
  show "take (length (photos st)) (photos (snd (mentalSnapshot env channelName r st))) = photos st"
    by (rule mentalSnapshot_frame)
next
  assume h: "deref st r = Some p \<and> channelName \<noteq> [] \<and>
    request_get env (href (parse env (url p))) = Inr resp \<and> statusCode resp = 200 \<and>
    sharp_resize env 84 84 (body resp) = Inr b \<and>
    putObject env (''photos/'' @ channelName @ ''/'' @
        savePhoto_pathname env channelName (parse env (url p)) thumbnail_options) b = None"
  let ?path = "savePhoto_pathname env channelName (parse env (url p)) thumbnail_options"
  let ?st1 = "st\<lparr>photos := photos st @ [p]\<rparr>"
  have d1: "deref ?st1 (length (photos st)) = Some p"
    by (simp add: deref_def)
  have body: "savePhoto_body env (parse env (url p)) thumbnail_options resp = Inr b"
    using h by (simp add: savePhoto_body_def thumbnail_options_def)
  define st' where "st' = snd (savePhoto env channelName (length (photos st)) thumbnail_options ?st1)"
  have save: "savePhoto env channelName (length (photos st)) thumbnail_options ?st1 = (Inr b, st')"
    unfolding st'_def using h d1 body by (simp add: savePhoto_def Let_def)
  have ph: "photos st' = photos st @ [p\<lparr>url := photo_url env channelName ?path\<rparr>]"
    unfolding st'_def using h d1 body
    by (simp add: savePhoto_def Let_def store_object_def issue_def)
  have ob: "(''photos/'' @ channelName @ ''/'' @ ?path, b) \<in> set (objects st')"
    unfolding st'_def using h d1 body
    by (simp add: savePhoto_def Let_def store_object_def issue_def)
  have r: "r < length (photos st)" "photos st ! r = p"
    using h by (auto simp: deref_def split: if_splits)
  have "mentalSnapshot env channelName r st = (Inr (photo_url env channelName ?path), st')"
    using h save ph by (simp add: mentalSnapshot_def Let_def)
  moreover have "deref st' r = Some p"
    using ph r by (simp add: deref_def nth_append)
  ultimately show "\<exists>st'. mentalSnapshot env channelName r st =
        (Inr (photo_url env channelName ?path), st') \<and>
      (''photos/'' @ channelName @ ''/'' @ ?path, b) \<in> set (objects st') \<and>
      deref st' r = Some p"
    using ob by blast
qed

theorem mentalSnapshot_thumbnail_witness:
  "mentalSnapshot example_env ''tinder'' 0
     (example_state [example_photo ''http://a.com/cache/images/abc/1.jpg'' (Num 80) (Some ''2017-05-01'')]) =
   (Inr ''https://s3-eu-west-1.amazonaws.com/bucket/photos/tinder/abc/84x84_1.jpg'',
    \<lparr>photos = [example_photo ''http://a.com/cache/images/abc/1.jpg'' (Num 80) (Some ''2017-05-01''),
               example_photo ''https://s3-eu-west-1.amazonaws.com/bucket/photos/tinder/abc/84x84_1.jpg'' (Num 80) (Some ''2017-05-01'')],
     objects = [(''photos/tinder/abc/84x84_1.jpg'', ''resized jpeg'')], faces = [],
     calls = [RequestGet ''http://a.com/cache/images/abc/1.jpg'',
              PutObject ''photos/tinder/abc/84x84_1.jpg'' ''resized jpeg''],
     warnings = []\<rparr>)"
proof -
  let ?p = "example_photo ''http://a.com/cache/images/abc/1.jpg'' (Num 80) (Some ''2017-05-01'')"
  let ?st = "example_state [?p]"
  have path: "savePhoto_pathname example_env ''tinder'' (parse example_env (url ?p)) thumbnail_options
      = ''abc/84x84_1.jpg''"
    by (simp add: eval_defs)
  have h: "deref ?st 0 = Some ?p \<and> ''tinder'' \<noteq> [] \<and>
    request_get example_env (href (parse example_env (url ?p))) =
      Inr \<lparr>statusCode = 200, statusMessage = ''OK'', body = ''jpeg''\<rparr> \<and>
    statusCode \<lparr>statusCode = 200, statusMessage = ''OK'', body = ''jpeg''\<rparr> = 200 \<and>
    sharp_resize example_env 84 84 (body \<lparr>statusCode = 200, statusMessage = ''OK'', body = ''jpeg''\<rparr>)
      = Inr ''resized jpeg'' \<and>
    putObject example_env (''photos/'' @ ''tinder'' @ ''/'' @
        savePhoto_pathname example_env ''tinder'' (parse example_env (url ?p)) thumbnail_options)
      ''resized jpeg'' = None"
    by (simp add: deref_def example_state_def example_env_def)
  from mentalSnapshot_thumbnail [of ?st example_env "''tinder''" 0 ?p
      "\<lparr>statusCode = 200, statusMessage = ''OK'', body = ''jpeg''\<rparr>" "''resized jpeg''"] h
  obtain st' where "mentalSnapshot example_env ''tinder'' 0 ?st =
      (Inr (photo_url example_env ''tinder''
         (savePhoto_pathname example_env ''tinder'' (parse example_env (url ?p)) thumbnail_options)), st')"
    by blast
  then show ?thesis
    by (auto simp: eval_defs)
qed

lemma indexFacesFromImage_count:
  assumes "indexFacesFromImage env img st = (Inr k, st')"
  shows "k = (if single_face env img then 1 else 0)"
  using assms
  by (auto simp: indexFacesFromImage_def indexFaces_catch_def single_face_def Let_def
      split: sum.splits option.splits if_splits)

lemma indexFacesFromImages_from_count:
  assumes "indexFacesFromImages_from env images n st = (Inr m, st')"
  shows "m = n + length (filter (single_face env) images)"
  using assms
proof (induction images arbitrary: n st)
  case Nil
  then show ?case by simp
next
  case (Cons img images)
  obtain res st1 where step: "indexFacesFromImage env img st = (res, st1)"
    by (cases "indexFacesFromImage env img st")
  show ?case
  proof (cases res)
    case (Inl e)
    with step Cons.prems show ?thesis by simp
  next
    case (Inr k)
    with step Cons.prems have
      "indexFacesFromImages_from env images (n + k) st1 = (Inr m, st')" by simp
    from Cons.IH [OF this] indexFacesFromImage_count [of env img st k st1] step Inr
    show ?thesis by simp
  qed
qed

text \<open>
  C3: when \<open>indexFaces\<close> reports a number of faces other than one (and the two deleting
  calls succeed), the step for that image issues \<open>deleteFaces\<close> with every detected face
  id and then \<open>deleteObject\<close> for the image; afterwards no face with such an id is in the
  collection, the object is not in the bucket, and the step adds nothing to the count. The
  count of a batch is the number of its images for which exactly one face was reported.
\<close>

theorem unusable_image_purge:
  assumes "indexFaces env img = Inr (Some ids)" and "length ids \<noteq> 1"
    and "rekognition_deleteFaces env ids = None" and "deleteObject env img = None"
  shows "(\<exists>st'. indexFacesFromImage env img st = (Inr 0, st') \<and>
            calls st' = calls st @ [IndexFaces img, DeleteFaces ids, DeleteObject img] \<and>
            (\<forall>f \<in> set (faces st'). FaceId f \<notin> set ids) \<and>
            img \<notin> fst ` set (objects st')) \<and>
         (\<forall>images n st0 st1. indexFacesFromImages env images st0 = (Inr n, st1) \<longrightarrow>
            n = length (filter (single_face env) images)) \<and>
         \<not> single_face env img"
proof (intro conjI allI impI)
  show "\<exists>st'. indexFacesFromImage env img st = (Inr 0, st') \<and>
            calls st' = calls st @ [IndexFaces img, DeleteFaces ids, DeleteObject img] \<and>
            (\<forall>f \<in> set (faces st'). FaceId f \<notin> set ids) \<and>
            img \<notin> fst ` set (objects st')"
    using assms
    by (auto simp: indexFacesFromImage_def Let_def issue_def add_faces_def remove_faces_def
        remove_object_def)
next
  fix images n st0 st1
  assume "indexFacesFromImages env images st0 = (Inr n, st1)"
  then show "n = length (filter (single_face env) images)"
    using indexFacesFromImages_from_count [of env images 0 st0 n st1]
    by (simp add: indexFacesFromImages_def)
next
  show "\<not> single_face env img"
    using assms by (simp add: single_face_def)
qed

theorem unusable_image_purge_witness:
  "indexFacesFromImages two_faces_env [''train/a.jpg''] example_bucket =
   (Inr 0, \<lparr>photos = [], objects = [], faces = [],
            calls = [IndexFaces ''train/a.jpg'', DeleteFaces [''f1'', ''f2''],
                     DeleteObject ''train/a.jpg''],
            warnings = []\<rparr>)"
proof -
  have a: "indexFaces two_faces_env ''train/a.jpg'' = Inr (Some [''f1'', ''f2''])"
    by (simp add: two_faces_env_def)
  have b: "length [''f1'', ''f2''] \<noteq> 1" by simp
  have c: "rekognition_deleteFaces two_faces_env [''f1'', ''f2''] = None"
    by (simp add: two_faces_env_def example_env_def)
  have d: "deleteObject two_faces_env ''train/a.jpg'' = None"
    by (simp add: two_faces_env_def example_env_def)
  from unusable_image_purge [OF a b c d, of example_bucket]
  obtain st' where "indexFacesFromImage two_faces_env ''train/a.jpg'' example_bucket = (Inr 0, st')"
    by blast
  then show ?thesis
    by (auto simp: eval_defs two_faces_env_def example_bucket_def)
qed

text \<open>
  C6: when \<open>indexFaces\<close> is rejected with an error whose code contains
  \<open>InvalidImageFormatException\<close> or \<open>InvalidParameterException\<close>, the step issues
  \<open>deleteObject\<close> for the image, which (the call succeeding) removes it from the bucket.
  After any other error the step only logs the message: bucket and collection are as
  before, the count is not incremented, and the images to index are the same as before.
\<close>

theorem indexing_error_policy:
  assumes "indexFaces env img = Inl e"
  shows "(invalid_image_error e \<longrightarrow>
            calls (snd (indexFacesFromImage env img st)) =
              calls st @ [IndexFaces img, DeleteObject img] \<and>
            faces (snd (indexFacesFromImage env img st)) = faces st \<and>
            (deleteObject env img = None \<longrightarrow>
               fst (indexFacesFromImage env img st) = Inr 0 \<and>
               img \<notin> fst ` set (objects (snd (indexFacesFromImage env img st))))) \<and>
         (\<not> invalid_image_error e \<longrightarrow>
            fst (indexFacesFromImage env img st) = Inr 0 \<and>
            objects (snd (indexFacesFromImage env img st)) = objects st \<and>
            faces (snd (indexFacesFromImage env img st)) = faces st \<and>
            calls (snd (indexFacesFromImage env img st)) = calls st @ [IndexFaces img] \<and>
            warnings (snd (indexFacesFromImage env img st)) = warnings st @ [message e] \<and>
            imagesToIndex (snd (indexFacesFromImage env img st)) = imagesToIndex st)"
  using assms
  by (auto simp: indexFacesFromImage_def indexFaces_catch_def Let_def issue_def warn_def
      remove_object_def imagesToIndex_def availableImages_def currentImages_def
      list_objects_def split: option.splits)

theorem indexing_error_policy_witness:
  "indexFacesFromImages invalid_image_env [''train/a.jpg''] example_bucket =
     (Inr 0, \<lparr>photos = [], objects = [], faces = [],
              calls = [IndexFaces ''train/a.jpg'', DeleteObject ''train/a.jpg''],
              warnings = []\<rparr>) \<and>
   indexFacesFromImages throttled_env [''train/a.jpg''] example_bucket =
     (Inr 0, \<lparr>photos = [], objects = [(''train/a.jpg'', ''jpeg'')], faces = [],
              calls = [IndexFaces ''train/a.jpg''],
              warnings = [''Rate exceeded'']\<rparr>)"
proof -
  have a: "indexFaces invalid_image_env ''train/a.jpg'' =
      Inl (Error (Some ''InvalidImageFormatException'') ''bad image'')"
    by (simp add: invalid_image_env_def)
  have b: "indexFaces throttled_env ''train/a.jpg'' =
      Inl (Error (Some ''ThrottlingException'') ''Rate exceeded'')"
    by (simp add: throttled_env_def)
  have i: "invalid_image_error (Error (Some ''InvalidImageFormatException'') ''bad image'')"
    by (simp add: invalid_image_error_def js_includes_def)
  have j: "\<not> invalid_image_error (Error (Some ''ThrottlingException'') ''Rate exceeded'')"
    by (simp add: invalid_image_error_def js_includes_def)
  have d: "deleteObject invalid_image_env ''train/a.jpg'' = None"
    by (simp add: invalid_image_env_def example_env_def)
  from indexing_error_policy [OF a, of example_bucket] i d
  have 1: "fst (indexFacesFromImage invalid_image_env ''train/a.jpg'' example_bucket) = Inr 0"
    by simp
  from indexing_error_policy [OF b, of example_bucket] j
  have 2: "fst (indexFacesFromImage throttled_env ''train/a.jpg'' example_bucket) = Inr 0"
    by simp
  from 1 2 show ?thesis
    by (auto simp: eval_defs invalid_image_env_def throttled_env_def example_bucket_def)
qed

subsection \<open>The synchronizer\<close>

lemma difference_Nil_iff: "difference xs ys = [] \<longleftrightarrow> set xs \<subseteq> set ys"
  by (auto simp: difference_def filter_empty_conv)

lemma set_currentImages: "set (currentImages st) = ExternalImageId ` set (faces st)"
  by (simp add: currentImages_def uniq_def)

lemma set_availableImages:
  "set (availableImages st) = {k \<in> fst ` set (objects st). starts_with k ''train''}"
  by (auto simp: availableImages_def list_objects_def)

lemma set_imagesToIndex:
  "set (imagesToIndex st) = set (availableImages st) - set (currentImages st)"
  by (auto simp: imagesToIndex_def difference_def)

lemma set_imagesToDelete:
  "set (imagesToDelete st) = set (currentImages st) - set (availableImages st)"
  by (auto simp: imagesToDelete_def difference_def)

lemma set_facesToDelete:
  "set (facesToDelete st) =
   FaceId ` {f \<in> set (faces st). ExternalImageId f \<in> set (imagesToDelete st)}"
  by (auto simp: facesToDelete_def)

lemma faces_after_delete:
  assumes "distinct (map FaceId (faces st))"
  shows "filter (\<lambda>f. FaceId f \<notin> set (facesToDelete st)) (faces st) =
         filter (\<lambda>f. ExternalImageId f \<in> set (availableImages st)) (faces st)"
proof (rule filter_cong [OF refl])
  fix f assume f: "f \<in> set (faces st)"
  from assms have inj: "inj_on FaceId (set (faces st))"
    by (simp add: distinct_map)
  show "(FaceId f \<notin> set (facesToDelete st)) = (ExternalImageId f \<in> set (availableImages st))"
  proof
    assume n: "FaceId f \<notin> set (facesToDelete st)"
    show "ExternalImageId f \<in> set (availableImages st)"
    proof (rule ccontr)
      assume "ExternalImageId f \<notin> set (availableImages st)"
      with f have "ExternalImageId f \<in> set (imagesToDelete st)"
        by (simp add: set_imagesToDelete set_currentImages)
      with f have "FaceId f \<in> set (facesToDelete st)"
        by (auto simp: set_facesToDelete)
      with n show False by simp
    qed
  next
    assume a: "ExternalImageId f \<in> set (availableImages st)"
    show "FaceId f \<notin> set (facesToDelete st)"
    proof
      assume "FaceId f \<in> set (facesToDelete st)"
      then obtain g where g: "g \<in> set (faces st)" "FaceId g = FaceId f"
        "ExternalImageId g \<in> set (imagesToDelete st)"
        by (auto simp: set_facesToDelete)
      with inj f have "g = f" by (auto dest: inj_onD)
      with g a show False by (simp add: set_imagesToDelete)
    qed
  qed
qed

lemma indexFacesFromImage_single:
  assumes "indexFaces env img = Inr (Some ids)" and "length ids = 1"
  shows "indexFacesFromImage env img st =
         (Inr 1, add_faces img ids (issue (IndexFaces img) st))"
  using assms by (simp add: indexFacesFromImage_def Let_def)

lemma indexFacesFromImage_rejected:
  assumes "indexFaces env img = Inr (Some ids)" and "length ids \<noteq> 1"
    and "rekognition_deleteFaces env ids = None" and "deleteObject env img = None"
    and "\<forall>f \<in> set (faces st). FaceId f \<notin> set ids"
  shows "\<exists>st'. indexFacesFromImage env img st = (Inr 0, st') \<and> faces st' = faces st \<and>
           objects st' = filter (\<lambda>kv. fst kv \<noteq> img) (objects st)"
proof -
  have "filter (\<lambda>f. FaceId f \<notin> set ids)
          (faces st @ map (\<lambda>i. \<lparr>FaceId = i, ExternalImageId = img\<rparr>) ids) = faces st"
    using assms(5) by (simp add: filter_id_conv filter_empty_conv)
  with assms(1-4) show ?thesis
    by (simp add: indexFacesFromImage_def Let_def issue_def add_faces_def remove_faces_def
        remove_object_def)
qed

lemma indexFacesFromImage_step:
  assumes "step_ok env A img" and "FaceId ` set (faces st) \<subseteq> A"
  shows "\<exists>k. fst (indexFacesFromImage env img st) = Inr k"
    and "FaceId ` set (faces (snd (indexFacesFromImage env img st))) \<subseteq> A"
    and "ExternalImageId ` set (faces (snd (indexFacesFromImage env img st))) =
           ExternalImageId ` set (faces st) \<union> (if single_face env img then {img} else {})"
    and "fst ` set (objects (snd (indexFacesFromImage env img st))) =
           fst ` set (objects st) - (if single_face env img then {} else {img})"
proof -
  from assms(1) obtain ids where ids: "indexFaces env img = Inr (Some ids)"
    by (auto simp: step_ok_def split: sum.splits option.splits)
  have "(\<exists>k. fst (indexFacesFromImage env img st) = Inr k) \<and>
        FaceId ` set (faces (snd (indexFacesFromImage env img st))) \<subseteq> A \<and>
        ExternalImageId ` set (faces (snd (indexFacesFromImage env img st))) =
           ExternalImageId ` set (faces st) \<union> (if single_face env img then {img} else {}) \<and>
        fst ` set (objects (snd (indexFacesFromImage env img st))) =
           fst ` set (objects st) - (if single_face env img then {} else {img})"
  proof (cases "length ids = 1")
    case True
    with ids assms(1) have sub: "set ids \<subseteq> A" by (simp add: step_ok_def)
    have s: "single_face env img" using ids True by (simp add: single_face_def)
    have img: "(\<lambda>i. img) ` set ids = {img}" using True by (cases ids) auto
    have run: "indexFacesFromImage env img st =
        (Inr 1, add_faces img ids (issue (IndexFaces img) st))"
      by (rule indexFacesFromImage_single [OF ids True])
    have "FaceId ` set (faces (add_faces img ids (issue (IndexFaces img) st))) \<subseteq> A"
      using sub assms(2) by (auto simp: add_faces_def issue_def)
    moreover have "ExternalImageId ` set (faces (add_faces img ids (issue (IndexFaces img) st))) =
        ExternalImageId ` set (faces st) \<union> {img}"
      using img by (simp add: add_faces_def issue_def image_Un image_image)
    moreover have "objects (add_faces img ids (issue (IndexFaces img) st)) = objects st"
      by (simp add: add_faces_def issue_def)
    ultimately show ?thesis using run s by simp
  next
    case False
    with ids assms(1) have h: "rekognition_deleteFaces env ids = None"
      "deleteObject env img = None" "set ids \<inter> A = {}" by (simp_all add: step_ok_def)
    from h(3) assms(2) have fresh: "\<forall>f \<in> set (faces st). FaceId f \<notin> set ids" by auto
    have s: "\<not> single_face env img" using ids False by (simp add: single_face_def)
    from indexFacesFromImage_rejected [OF ids False h(1,2) fresh]
    obtain st' where st': "indexFacesFromImage env img st = (Inr 0, st')"
      "faces st' = faces st" "objects st' = filter (\<lambda>kv. fst kv \<noteq> img) (objects st)"
      by blast
    have "fst ` set (objects st') = fst ` set (objects st) - {img}"
      using st'(3) by auto
    with st' s assms(2) show ?thesis by simp
  qed
  then show "\<exists>k. fst (indexFacesFromImage env img st) = Inr k"
    and "FaceId ` set (faces (snd (indexFacesFromImage env img st))) \<subseteq> A"
    and "ExternalImageId ` set (faces (snd (indexFacesFromImage env img st))) =
           ExternalImageId ` set (faces st) \<union> (if single_face env img then {img} else {})"
    and "fst ` set (objects (snd (indexFacesFromImage env img st))) =
           fst ` set (objects st) - (if single_face env img then {} else {img})"
    by simp_all
qed

lemma indexFacesFromImages_from_loop:
  assumes "\<forall>img \<in> set images. step_ok env A img" and "FaceId ` set (faces st) \<subseteq> A"
  shows "(\<exists>m. fst (indexFacesFromImages_from env images n st) = Inr m) \<and>
         FaceId ` set (faces (snd (indexFacesFromImages_from env images n st))) \<subseteq> A \<and>
         ExternalImageId ` set (faces (snd (indexFacesFromImages_from env images n st))) =
           ExternalImageId ` set (faces st) \<union> {img \<in> set images. single_face env img} \<and>
         fst ` set (objects (snd (indexFacesFromImages_from env images n st))) =
           fst ` set (objects st) - {img \<in> set images. \<not> single_face env img}"
  using assms
proof (induction images arbitrary: n st)
  case Nil
  then show ?case by simp
next
  case (Cons img images)
  from Cons.prems have ok: "step_ok env A img" by simp
  define st1 where "st1 = snd (indexFacesFromImage env img st)"
  from indexFacesFromImage_step(1) [OF ok Cons.prems(2)]
  obtain k where k: "fst (indexFacesFromImage env img st) = Inr k" ..
  have step: "indexFacesFromImage env img st = (Inr k, st1)"
    using k by (simp add: st1_def prod_eq_iff)
  have a1: "FaceId ` set (faces st1) \<subseteq> A"
    unfolding st1_def by (rule indexFacesFromImage_step(2) [OF ok Cons.prems(2)])
  have f1: "ExternalImageId ` set (faces st1) =
       ExternalImageId ` set (faces st) \<union> (if single_face env img then {img} else {})"
    unfolding st1_def by (rule indexFacesFromImage_step(3) [OF ok Cons.prems(2)])
  have o1: "fst ` set (objects st1) =
       fst ` set (objects st) - (if single_face env img then {} else {img})"
    unfolding st1_def by (rule indexFacesFromImage_step(4) [OF ok Cons.prems(2)])
  from Cons.prems have rest: "\<forall>img \<in> set images. step_ok env A img" by simp
  note IH = Cons.IH [OF rest a1, of "n + k"]
  have unfold: "indexFacesFromImages_from env (img # images) n st =
      indexFacesFromImages_from env images (n + k) st1"
    using step by simp
  have f: "ExternalImageId ` set (faces st1) \<union> {i \<in> set images. single_face env i} =
      ExternalImageId ` set (faces st) \<union> {i \<in> set (img # images). single_face env i}"
    unfolding f1 by auto
  have o: "fst ` set (objects st1) - {i \<in> set images. \<not> single_face env i} =
      fst ` set (objects st) - {i \<in> set (img # images). \<not> single_face env i}"
    unfolding o1 by auto
  from IH show ?case
    unfolding unfold f [symmetric] o [symmetric] by simp
qed

lemma issue_fields [simp]:
  "faces (issue c st) = faces st" "objects (issue c st) = objects st"
  "photos (issue c st) = photos st" "warnings (issue c st) = warnings st"
  "calls (issue c st) = calls st @ [c]"
  by (simp_all add: issue_def)

lemma issue_images [simp]:
  "currentImages (issue c st) = currentImages st"
  "availableImages (issue c st) = availableImages st"
  "imagesToIndex (issue c st) = imagesToIndex st"
  "imagesToDelete (issue c st) = imagesToDelete st"
  "facesToDelete (issue c st) = facesToDelete st"
  by (simp_all add: currentImages_def availableImages_def list_objects_def imagesToIndex_def
      imagesToDelete_def facesToDelete_def)

lemma successful_run_step_ok:
  assumes "successful_run env st" and "img \<in> set (imagesToIndex st)"
  shows "step_ok env (set (kept_face_ids env st)) img"
proof -
  from assms have ok: "indexing_succeeds env st img"
    by (simp add: successful_run_def list_all_iff)
  then obtain ids where ids: "indexFaces env img = Inr (Some ids)"
    by (auto simp: indexing_succeeds_def split: sum.splits option.splits)
  show ?thesis
  proof (cases "length ids = 1")
    case True
    have "set ids \<subseteq> set (kept_face_ids env st)"
    proof
      fix i assume "i \<in> set ids"
      with assms(2) ids True show "i \<in> set (kept_face_ids env st)"
        by (auto simp: kept_face_ids_def intro!: bexI [of _ img])
    qed
    with ids True show ?thesis by (simp add: step_ok_def)
  next
    case False
    with ok ids have "rekognition_deleteFaces env ids = None" "deleteObject env img = None"
      "\<forall>i \<in> set ids. i \<notin> set (kept_face_ids env st)"
      by (simp_all add: indexing_succeeds_def list_all_iff)
    with ids False show ?thesis by (auto simp: step_ok_def)
  qed
qed

lemma in_sync_images:
  assumes c: "ExternalImageId ` set (faces st') =
      ExternalImageId ` {f \<in> set (faces st). ExternalImageId f \<in> set (availableImages st)} \<union>
      {img \<in> set (imagesToIndex st). single_face env img}"
    and o: "fst ` set (objects st') =
      fst ` set (objects st) - {img \<in> set (imagesToIndex st). \<not> single_face env img}"
  shows "set (currentImages st') = set (availableImages st')"
proof -
  have "set (currentImages st') =
      (set (currentImages st) \<inter> set (availableImages st)) \<union>
      {img \<in> set (imagesToIndex st). single_face env img}"
    unfolding set_currentImages c by auto
  moreover have "set (availableImages st') =
      set (availableImages st) - {img \<in> set (imagesToIndex st). \<not> single_face env img}"
    unfolding set_availableImages o by auto
  ultimately show ?thesis
    unfolding set_imagesToIndex by auto
qed

lemma in_sync_second_run:
  assumes "imagesToDelete st = []" and "imagesToIndex st = []"
  shows "faces (snd (syncS3BucketAndRekognitionCollection env st)) = faces st \<and>
         objects (snd (syncS3BucketAndRekognitionCollection env st)) = objects st \<and>
         (\<exists>cs. calls (snd (syncS3BucketAndRekognitionCollection env st)) = calls st @ cs \<and>
               set cs \<subseteq> {ListFaces, ListObjects ''train'', DeleteFaces []}) \<and>
         (listFaces env = None \<and> listObjects env ''train'' = None \<and>
          rekognition_deleteFaces env [] = None \<longrightarrow>
          fst (syncS3BucketAndRekognitionCollection env st) = Inr (Some 0, 0))"
proof -
  have f: "facesToDelete st = []"
    using assms(1) by (simp add: facesToDelete_def)
  show ?thesis
    using assms(2) f
    by (auto simp: syncS3BucketAndRekognitionCollection_def deleteFaces_def Let_def
        indexFacesFromImages_def remove_faces_def warn_def split: option.splits)
qed

text \<open>
  C1: after a pass of \<open>syncS3BucketAndRekognitionCollection\<close> in which no collaborator call
  failed, the pass has resolved and both difference sets, \<open>imagesToDelete\<close> and
  \<open>imagesToIndex\<close>, are empty. A second pass on that state, whatever the collaborators
  answer, issues no \<open>indexFaces\<close> call and no deletion other than \<open>deleteFaces\<close> on the
  empty list, and leaves collection and bucket as they are; when its calls succeed it
  reports zero faces deleted and zero faces indexed.
\<close>

theorem sync_idempotent:
  assumes "successful_run env st"
    and "syncS3BucketAndRekognitionCollection env st = (res, st')"
  shows "(\<exists>deletedFaces indexedFaces. res = Inr (deletedFaces, indexedFaces)) \<and>
         imagesToDelete st' = [] \<and> imagesToIndex st' = [] \<and> facesToDelete st' = [] \<and>
         (\<forall>env'.
            faces (snd (syncS3BucketAndRekognitionCollection env' st')) = faces st' \<and>
            objects (snd (syncS3BucketAndRekognitionCollection env' st')) = objects st' \<and>
            (\<exists>cs. calls (snd (syncS3BucketAndRekognitionCollection env' st')) = calls st' @ cs \<and>
                  set cs \<subseteq> {ListFaces, ListObjects ''train'', DeleteFaces []}) \<and>
            (listFaces env' = None \<and> listObjects env' ''train'' = None \<and>
             rekognition_deleteFaces env' [] = None \<longrightarrow>
             fst (syncS3BucketAndRekognitionCollection env' st') = Inr (Some 0, 0)))"
proof -
  let ?A = "set (kept_face_ids env st)"
  let ?st1 = "issue (ListObjects ''train'') (issue ListFaces st)"
  let ?st2 = "remove_faces (facesToDelete st) (issue (DeleteFaces (facesToDelete st)) ?st1)"
  let ?loop = "indexFacesFromImages_from env (imagesToIndex st) 0 ?st2"
  from assms(1) have ok: "listFaces env = None" "listObjects env ''train'' = None"
    "distinct (map FaceId (faces st))" "rekognition_deleteFaces env (facesToDelete st) = None"
    by (simp_all add: successful_run_def)
  have f2: "faces ?st2 =
      filter (\<lambda>f. ExternalImageId f \<in> set (availableImages st)) (faces st)"
    using faces_after_delete [OF ok(3)] by (simp add: remove_faces_def)
  have o2: "objects ?st2 = objects st"
    by (simp add: remove_faces_def)
  have a2: "FaceId ` set (faces ?st2) \<subseteq> ?A"
    unfolding f2 by (auto simp: kept_face_ids_def)
  have steps: "\<forall>img \<in> set (imagesToIndex st). step_ok env ?A img"
    using successful_run_step_ok [OF assms(1)] by blast
  note loop = indexFacesFromImages_from_loop [OF steps a2, of 0]
  note loop_res = loop [THEN conjunct1]
  note loop_faces = loop [THEN conjunct2, THEN conjunct2, THEN conjunct1]
  note loop_objects = loop [THEN conjunct2, THEN conjunct2, THEN conjunct2]
  from loop_res obtain m where m: "fst ?loop = Inr m" ..
  define st3 where "st3 = snd ?loop"
  have loop_eq: "?loop = (Inr m, st3)"
    using m by (simp add: st3_def prod_eq_iff)
  have run: "syncS3BucketAndRekognitionCollection env st =
      (Inr (Some (length (facesToDelete st)), m), st3)"
    using ok loop_eq
    by (simp add: syncS3BucketAndRekognitionCollection_def deleteFaces_def Let_def
        indexFacesFromImages_def)
  with assms(2) have res: "res = Inr (Some (length (facesToDelete st)), m)"
    and st': "st' = snd ?loop" by (simp_all add: st3_def)
  have c: "ExternalImageId ` set (faces st') =
      ExternalImageId ` {f \<in> set (faces st). ExternalImageId f \<in> set (availableImages st)} \<union>
      {img \<in> set (imagesToIndex st). single_face env img}"
    using loop_faces unfolding st' f2 by simp
  have o: "fst ` set (objects st') =
      fst ` set (objects st) - {img \<in> set (imagesToIndex st). \<not> single_face env img}"
    using loop_objects unfolding st' o2 by simp
  have eq: "set (currentImages st') = set (availableImages st')"
    by (rule in_sync_images [OF c o])
  have d: "imagesToDelete st' = []"
    using eq by (simp add: imagesToDelete_def difference_Nil_iff)
  have i: "imagesToIndex st' = []"
    using eq by (simp add: imagesToIndex_def difference_Nil_iff)
  have fd: "facesToDelete st' = []"
    using d by (simp add: facesToDelete_def)
  from res d i fd in_sync_second_run [OF d i] show ?thesis by simp
qed

lemmas sync_defs =
  syncS3BucketAndRekognitionCollection_def deleteFaces_def facesToDelete_def
  imagesToIndex_def imagesToDelete_def currentImages_def availableImages_def
  list_objects_def uniq_def difference_def

theorem sync_idempotent_witness:
  "successful_run sync_env sync_state \<and>
   syncS3BucketAndRekognitionCollection sync_env sync_state = (Inr (Some 1, 1), synced_state) \<and>
   imagesToDelete synced_state = [] \<and> imagesToIndex synced_state = [] \<and>
   fst (syncS3BucketAndRekognitionCollection sync_env synced_state) = Inr (Some 0, 0)"
proof -
  have todo: "imagesToIndex sync_state = [''train/new.jpg'', ''train/group.jpg'']"
    "facesToDelete sync_state = [''f-gone'']"
    by (simp_all add: sync_defs sync_state_def)
  have idx: "indexFaces sync_env ''train/new.jpg'' = Inr (Some [''face-of-train/new.jpg''])"
    "indexFaces sync_env ''train/group.jpg'' = Inr (Some [''g1'', ''g2''])"
    by (simp_all add: sync_env_def)
  have svc: "listFaces sync_env = None" "listObjects sync_env ''train'' = None"
    "rekognition_deleteFaces sync_env ids = None" "deleteObject sync_env k = None" for ids k
    by (simp_all add: sync_env_def example_env_def)
  have dist: "distinct (map FaceId (faces sync_state))"
    by (simp add: sync_state_def)
  have kept: "kept_face_ids sync_env sync_state = [''f-a'', ''f-gone'', ''face-of-train/new.jpg'']"
    unfolding kept_face_ids_def todo by (simp add: idx) (simp add: sync_state_def)
  have ok: "successful_run sync_env sync_state"
    unfolding successful_run_def todo
    by (simp add: indexing_succeeds_def kept idx svc dist)
  have run: "syncS3BucketAndRekognitionCollection sync_env sync_state =
      (Inr (Some 1, 1), synced_state)"
    unfolding syncS3BucketAndRekognitionCollection_def Let_def issue_images todo
    by (simp add: deleteFaces_def indexFacesFromImages_def indexFacesFromImage_def Let_def
        sync_env_def example_env_def sync_state_def synced_state_def issue_def add_faces_def
        remove_faces_def remove_object_def)
  have again: "listFaces sync_env = None \<and> listObjects sync_env ''train'' = None \<and>
      rekognition_deleteFaces sync_env [] = None"
    by (simp add: sync_env_def example_env_def)
  from sync_idempotent [OF ok run] again ok run show ?thesis
    by simp
qed

end
